theory Spec2Isabelle
  imports Complex_Main "HOL-Library.Sublist"
begin

section \<open>Errors\<close>

text \<open>
  Every exception the modelled code can raise is a value. \<open>DataJointError\<close> carries its
  message; the others are the interpreter's own exceptions.
\<close>

datatype error =
    DataJointError string
  | TypeError
  | IndexError
  | AttributeError
  | KeyError
  | NameError
  | ValueError
  | ZeroDivisionError

section \<open>Table tiers (user\_relations.py)\<close>

datatype tier = Manual | Lookup | Imported | Computed | Part

text \<open>
  A class declared under one of the tiers: its \<open>__name__\<close>, the \<open>database\<close> attribute
  (\<open>None\<close> until the schema decorator binds it) and, for a Part class, \<open>_master\<close>.
\<close>

datatype relation =
  Relation (tier: tier) (name: string) (database: "string option") (master: "relation option")

text \<open>
  The class attribute \<open>_prefix\<close>. Part does not set it and inherits \<open>None\<close> from
  \<open>UserRelation\<close>.
\<close>

fun prefix_of :: "tier \<Rightarrow> string option" where
  "prefix_of Manual = Some ''''"
| "prefix_of Lookup = Some ''#''"
| "prefix_of Imported = Some ''_''"
| "prefix_of Computed = Some ''__''"
| "prefix_of Part = None"

text \<open>
  \<open>UserRelation.table_name\<close> and its override \<open>Part.table_name\<close>. The helper
  \<open>utils.from_camel_case\<close> is not among the source files and is the parameter \<open>fcc\<close>.
  Adding a string to \<open>None\<close> raises \<open>TypeError\<close>.
\<close>

fun table_name :: "(string \<Rightarrow> string) \<Rightarrow> relation \<Rightarrow> error + string option" where
  "table_name fcc (Relation t n d m) =
     (if t = Part then
        (case m of
           None \<Rightarrow> Inr None
         | Some mc \<Rightarrow>
             (case table_name fcc mc of
                Inl e \<Rightarrow> Inl e
              | Inr None \<Rightarrow> Inl TypeError
              | Inr (Some s) \<Rightarrow> Inr (Some (s @ ''__'' @ fcc n))))
      else
        (case prefix_of t of
           None \<Rightarrow> Inl TypeError
         | Some p \<Rightarrow> Inr (Some (p @ fcc n))))"

text \<open>The format string \<open>`{0:s}`.`{1:s}`\<close> applied to two strings.\<close>

definition backquoted :: "string \<Rightarrow> string \<Rightarrow> string" where
  "backquoted db tn = ''`'' @ db @ ''`.`'' @ tn @ ''`''"

definition not_declared_msg :: "string \<Rightarrow> string" where
  "not_declared_msg n =
     ''Class '' @ n @ '' is not properly declared (schema decorator not applied?)''"

text \<open>
  \<open>UserRelation.full_table_name\<close> and \<open>Part.full_table_name\<close>. The format code \<open>s\<close>
  refuses \<open>None\<close> with a \<open>TypeError\<close>.
\<close>

fun full_table_name :: "(string \<Rightarrow> string) \<Rightarrow> relation \<Rightarrow> error + string option" where
  "full_table_name fcc (Relation t n d m) =
     (if t = Part then
        (case d of
           None \<Rightarrow> Inr None
         | Some db \<Rightarrow>
             (case table_name fcc (Relation t n d m) of
                Inl e \<Rightarrow> Inl e
              | Inr None \<Rightarrow> Inr None
              | Inr (Some tn) \<Rightarrow> Inr (Some (backquoted db tn))))
      else
        (case d of
           None \<Rightarrow> Inl (DataJointError (not_declared_msg n))
         | Some db \<Rightarrow>
             (case table_name fcc (Relation t n d m) of
                Inl e \<Rightarrow> Inl e
              | Inr None \<Rightarrow> Inl TypeError
              | Inr (Some tn) \<Rightarrow> Inr (Some (backquoted db tn)))))"

subsection \<open>The name conversion\<close>

text \<open>
  Modelled from the spec: \<open>utils.from_camel_case\<close> is missing from the source files. The
  spec describes it as turning a capitalized-word identifier into a lowercase,
  underscore-delimited one (\<open>MyExperiment\<close> to \<open>my_experiment\<close>). It serves only as a
  concrete instance of the parameter \<open>fcc\<close>.
\<close>

definition is_upper :: "char \<Rightarrow> bool" where
  "is_upper c = (65 \<le> (of_char c :: nat) \<and> (of_char c :: nat) \<le> 90)"

definition to_lower :: "char \<Rightarrow> char" where
  "to_lower c = (if is_upper c then char_of ((of_char c :: nat) + 32) else c)"

fun snake_tail :: "string \<Rightarrow> string" where
  "snake_tail [] = []"
| "snake_tail (c # cs) =
     (if is_upper c then CHR ''_'' # to_lower c # snake_tail cs else c # snake_tail cs)"

definition from_camel_case :: "string \<Rightarrow> string" where
  "from_camel_case s = (case s of [] \<Rightarrow> [] | c # cs \<Rightarrow> to_lower c # snake_tail cs)"

section \<open>Ordered classes (user\_relations.py)\<close>

text \<open>
  A \<open>collections.OrderedDict\<close>: the keys in the order of their insertion, each with
  its value. Storing under a key that is present keeps the key's place; deleting a
  key removes it, and a later store appends it again.
\<close>

type_synonym 'v ordered_dict = "(string \<times> 'v) list"

fun setitem :: "string \<Rightarrow> 'v \<Rightarrow> 'v ordered_dict \<Rightarrow> 'v ordered_dict" where
  "setitem k v [] = [(k, v)]"
| "setitem k v ((k', v') # kvs) =
     (if k' = k then (k, v) # kvs else (k', v') # setitem k v kvs)"

definition delitem :: "string \<Rightarrow> 'v ordered_dict \<Rightarrow> 'v ordered_dict" where
  "delitem k ns = filter (\<lambda>kv. fst kv \<noteq> k) ns"

text \<open>\<open>OrderedClass.__prepare__\<close>: the namespace the class body is executed in.\<close>

definition prepare :: "'v ordered_dict" where
  "prepare = []"

text \<open>
  What the body of a class statement does to its namespace: it stores a value under
  a name (an assignment, a function or class definition, and every name the
  interpreter itself stores), or it deletes a name (\<open>del\<close>), which raises \<open>NameError\<close>
  for a name that is not there.
\<close>

datatype 'v statement = is_store: Store (target: string) 'v | Delete (target: string)

fun exec_body :: "'v statement list \<Rightarrow> 'v ordered_dict \<Rightarrow> error + 'v ordered_dict" where
  "exec_body [] ns = Inr ns"
| "exec_body (Store k v # ss) ns = exec_body ss (setitem k v ns)"
| "exec_body (Delete k # ss) ns =
     (if k \<in> set (map fst ns) then exec_body ss (delitem k ns) else Inl NameError)"

text \<open>
  The execution of a class statement's body in the prepared namespace. The body of
  every class statement starts by storing \<open>__module__\<close> and \<open>__qualname__\<close>. \<open>rest\<close> is
  everything it does after that, in the order of execution: the stores and deletions
  of the declarations, in source order, and with them the stores that the
  interpreter adds for this body, which depend on the body and on the interpreter
  (\<open>__doc__\<close> for a docstring, \<open>__annotations__\<close> for annotated declarations,
  \<open>__classcell__\<close> for a method that uses \<open>super()\<close>).
\<close>

definition class_body :: "'v \<Rightarrow> 'v \<Rightarrow> 'v statement list \<Rightarrow> error + 'v ordered_dict" where
  "class_body modname qualname rest =
     exec_body (Store ''__module__'' modname # Store ''__qualname__'' qualname # rest) prepare"

text \<open>
  \<open>OrderedClass.__new__\<close>: the class made from \<open>dict(namespace)\<close>, with the attribute
  \<open>_ordered_class_members\<close> set to \<open>tuple(namespace)\<close>, the keys in order.
\<close>

record 'v ordered_class =
  class_dict :: "string \<rightharpoonup> 'v"
  ordered_class_members :: "string list"

definition OrderedClass_new :: "'v ordered_dict \<Rightarrow> 'v ordered_class" where
  "OrderedClass_new namespace =
     \<lparr>class_dict = map_of namespace, ordered_class_members = map fst namespace\<rparr>"

text \<open>
  A class statement with the metaclass \<open>OrderedClass\<close>: the body runs in the prepared
  namespace, and \<open>__new__\<close> makes the class from the namespace it leaves.
\<close>

definition class_statement :: "'v \<Rightarrow> 'v \<Rightarrow> 'v statement list \<Rightarrow> error + 'v ordered_class" where
  "class_statement modname qualname rest =
     (case class_body modname qualname rest of
        Inl e \<Rightarrow> Inl e
      | Inr namespace \<Rightarrow> Inr (OrderedClass_new namespace))"

section \<open>Regular expressions\<close>

text \<open>
  The patterns of Python's \<open>re\<close> module that the tier patterns are written with: a
  literal character, a character class of ranges such as \<open>[a-z0-9]\<close>, concatenation,
  alternation \<open>|\<close>, and the repetitions \<open>*\<close> and \<open>+\<close>. A group, named or not, is the
  pattern inside it, and \<open>{1,1}\<close> is one occurrence. \<open>Never\<close> matches nothing.
\<close>

datatype pattern =
    Never
  | Empty
  | Lit char
  | Chars "(char \<times> char) list"
  | Cat pattern pattern
  | Or pattern pattern
  | Star pattern
  | Plus pattern

definition in_range :: "char \<Rightarrow> char \<times> char \<Rightarrow> bool" where
  "in_range c r =
     ((of_char (fst r) :: nat) \<le> of_char c \<and> (of_char c :: nat) \<le> of_char (snd r))"

text \<open>The strings a pattern matches in full.\<close>

inductive matches :: "pattern \<Rightarrow> string \<Rightarrow> bool" where
  m_empty: "matches Empty []"
| m_lit: "matches (Lit c) [c]"
| m_chars: "\<exists>r \<in> set rs. in_range c r \<Longrightarrow> matches (Chars rs) [c]"
| m_cat: "matches p u \<Longrightarrow> matches q v \<Longrightarrow> matches (Cat p q) (u @ v)"
| m_or1: "matches p u \<Longrightarrow> matches (Or p q) u"
| m_or2: "matches q u \<Longrightarrow> matches (Or p q) u"
| m_star0: "matches (Star p) []"
| m_star: "matches p u \<Longrightarrow> matches (Star p) v \<Longrightarrow> matches (Star p) (u @ v)"
| m_plus: "matches p u \<Longrightarrow> matches (Star p) v \<Longrightarrow> matches (Plus p) (u @ v)"

text \<open>
  \<open>re.fullmatch\<close>, read as a truth value: the pattern is consumed one character at a
  time, \<open>after c p\<close> being what is left of \<open>p\<close> once \<open>c\<close> has been read.
\<close>

fun nullable :: "pattern \<Rightarrow> bool" where
  "nullable Never = False"
| "nullable Empty = True"
| "nullable (Lit c) = False"
| "nullable (Chars rs) = False"
| "nullable (Cat p q) = (nullable p \<and> nullable q)"
| "nullable (Or p q) = (nullable p \<or> nullable q)"
| "nullable (Star p) = True"
| "nullable (Plus p) = nullable p"

fun after :: "char \<Rightarrow> pattern \<Rightarrow> pattern" where
  "after c Never = Never"
| "after c Empty = Never"
| "after c (Lit d) = (if c = d then Empty else Never)"
| "after c (Chars rs) = (if list_ex (in_range c) rs then Empty else Never)"
| "after c (Cat p q) =
     (if nullable p then Or (Cat (after c p) q) (after c q) else Cat (after c p) q)"
| "after c (Or p q) = Or (after c p) (after c q)"
| "after c (Star p) = Cat (after c p) (Star p)"
| "after c (Plus p) = Cat (after c p) (Star p)"

fun fullmatch :: "pattern \<Rightarrow> string \<Rightarrow> bool" where
  "fullmatch p [] = nullable p"
| "fullmatch p (c # cs) = fullmatch (after c p) cs"

subsection \<open>The tier patterns\<close>

definition az :: "char \<times> char" where
  "az = (CHR ''a'', CHR ''z'')"

definition digits :: "char \<times> char" where
  "digits = (CHR ''0'', CHR ''9'')"

text \<open>\<open>_base_regexp\<close>, that is \<open>[a-z]+[a-z0-9]*(_[a-z]+[a-z0-9]*)*\<close>.\<close>

definition base_regexp :: pattern where
  "base_regexp =
     Cat (Plus (Chars [az]))
       (Cat (Star (Chars [az, digits]))
         (Star (Cat (Lit (CHR ''_''))
                 (Cat (Plus (Chars [az])) (Star (Chars [az, digits]))))))"

fun literal :: "string \<Rightarrow> pattern" where
  "literal [] = Empty"
| "literal (c # cs) = Cat (Lit c) (literal cs)"

text \<open>The group \<open>(?P<tier>\<close> prefix, base pattern \<open>)\<close> of a tier with a prefix.\<close>

definition prefixed :: "string \<Rightarrow> pattern" where
  "prefixed p = Cat (literal p) base_regexp"

text \<open>Patterns joined with \<open>|\<close>.\<close>

fun alternatives :: "pattern list \<Rightarrow> pattern" where
  "alternatives [] = Empty"
| "alternatives [p] = p"
| "alternatives (p # ps) = Or p (alternatives ps)"

text \<open>
  The class attribute \<open>tier_regexp\<close>. Part joins the patterns of Manual, Lookup,
  Imported and Computed, in this order, into the group \<open>master\<close>, followed by \<open>__\<close> and
  the base pattern.
\<close>

fun tier_regexp :: "tier \<Rightarrow> pattern" where
  "tier_regexp Manual = prefixed ''''"
| "tier_regexp Lookup = prefixed ''#''"
| "tier_regexp Imported = prefixed ''_''"
| "tier_regexp Computed = prefixed ''__''"
| "tier_regexp Part =
     Cat (alternatives [prefixed '''', prefixed ''#'', prefixed ''_'', prefixed ''__''])
       (Cat (literal ''__'') base_regexp)"

section \<open>Strings\<close>

text \<open>\<open>str.split(sep)\<close> for a separator of one character: never an empty list.\<close>

fun split :: "char \<Rightarrow> string \<Rightarrow> string list" where
  "split sep [] = [[]]"
| "split sep (c # cs) =
     (if c = sep then [] # split sep cs
      else (case split sep cs of [] \<Rightarrow> [[c]] | w # ws \<Rightarrow> (c # w) # ws))"

section \<open>The diagram (erd.py)\<close>

definition user_relation_classes :: "tier list" where
  "user_relation_classes = [Manual, Lookup, Computed, Imported, Part]"

text \<open>
  \<open>_get_tier\<close>. The index \<open>[-2]\<close> raises \<open>IndexError\<close> on fewer than two pieces, which the
  handler for \<open>StopIteration\<close> does not catch; the result \<open>None\<close> is the untiered node.
\<close>

definition get_tier :: "string \<Rightarrow> error + tier option" where
  "get_tier node =
     (let pieces = split (CHR 0x60) node in
      if length pieces < 2 then Inl IndexError
      else Inr (find (\<lambda>t. fullmatch (tier_regexp t) (pieces ! (length pieces - 2)))
                  user_relation_classes))"

subsection \<open>Graphs\<close>

text \<open>
  A directed graph of networkx: its nodes in iteration order and its edges. The edge
  attribute \<open>primary\<close>, which only \<open>draw\<close> reads, is left out. \<open>ERD\<close> is a subclass of
  \<open>DiGraph\<close> with the attribute \<open>nodes_to_show\<close>, a set.
\<close>

record digraph =
  nodes :: "string list"
  edges :: "(string \<times> string) list"

record erd = digraph +
  nodes_to_show :: "string set"

text \<open>
  \<open>networkx.algorithms.boundary.node_boundary(G, nbunch1)\<close>: the successors of the
  nodes of \<open>nbunch1\<close> that are in \<open>G\<close>, without these nodes themselves.
\<close>

definition node_boundary :: "'a digraph_scheme \<Rightarrow> string set \<Rightarrow> string set" where
  "node_boundary G nbunch1 =
     (let nset1 = Set.filter (\<lambda>n. n \<in> set (nodes G)) nbunch1
      in set (map snd (filter (\<lambda>e. fst e \<in> nset1) (edges G))) - nset1)"

text \<open>The invariant of a networkx graph: the end points of every edge are nodes.\<close>

definition well_formed :: "'a digraph_scheme \<Rightarrow> bool" where
  "well_formed G = (\<forall>e \<in> set (edges G). fst e \<in> set (nodes G) \<and> snd e \<in> set (nodes G))"

text \<open>\<open>nx.DiGraph(self).reverse()\<close>.\<close>

definition reverse :: "'a digraph_scheme \<Rightarrow> digraph" where
  "reverse G = \<lparr>nodes = nodes G, edges = map (\<lambda>e. (snd e, fst e)) (edges G)\<rparr>"

subsection \<open>Operators\<close>

text \<open>One pass of the loop body that finds new nodes: the boundary joins the shown set.\<close>

definition grow :: "'a digraph_scheme \<Rightarrow> string set \<Rightarrow> string set" where
  "grow G shown = shown \<union> node_boundary G shown"

text \<open>
  The loop \<open>for i in range(arg)\<close> of \<open>__add__\<close> and \<open>__sub__\<close>, with its \<open>break\<close>; the first
  argument is the graph the boundary is taken in, the second the iterations left.
\<close>

fun expand_loop :: "'a digraph_scheme \<Rightarrow> nat \<Rightarrow> string set \<Rightarrow> string set" where
  "expand_loop G 0 shown = shown"
| "expand_loop G (Suc i) shown =
     (let new = node_boundary G shown
      in if new = {} then shown else expand_loop G i (shown \<union> new))"

text \<open>
  The right operand of \<open>+\<close> and \<open>-\<close>: another diagram, an object with the attribute
  \<open>full_table_name\<close>, or an integer.
\<close>

datatype operand = Diagram erd | Table string | Count int

text \<open>\<open>ERD.__add__\<close>. \<open>range(arg)\<close> is empty for an integer below 1.\<close>

definition ERD_add :: "erd \<Rightarrow> operand \<Rightarrow> erd" where
  "ERD_add self arg =
     (case arg of
        Diagram d \<Rightarrow> self\<lparr>nodes_to_show := nodes_to_show self \<union> nodes_to_show d\<rparr>
      | Table t \<Rightarrow> self\<lparr>nodes_to_show := insert t (nodes_to_show self)\<rparr>
      | Count n \<Rightarrow> self\<lparr>nodes_to_show := expand_loop self (nat n) (nodes_to_show self)\<rparr>)"

text \<open>\<open>ERD.__sub__\<close>. \<open>set.remove\<close> raises \<open>KeyError\<close> for an element that is not in the set.\<close>

definition ERD_sub :: "erd \<Rightarrow> operand \<Rightarrow> error + erd" where
  "ERD_sub self arg =
     (case arg of
        Diagram d \<Rightarrow> Inr (self\<lparr>nodes_to_show := nodes_to_show self - nodes_to_show d\<rparr>)
      | Table t \<Rightarrow>
          (if t \<in> nodes_to_show self
           then Inr (self\<lparr>nodes_to_show := nodes_to_show self - {t}\<rparr>)
           else Inl KeyError)
      | Count n \<Rightarrow>
          Inr (self\<lparr>nodes_to_show :=
                 expand_loop (reverse self) (nat n) (nodes_to_show self)\<rparr>))"

text \<open>\<open>ERD.__mul__\<close>.\<close>

definition ERD_mul :: "erd \<Rightarrow> erd \<Rightarrow> erd" where
  "ERD_mul self arg = self\<lparr>nodes_to_show := nodes_to_show self \<inter> nodes_to_show arg\<rparr>"

subsection \<open>Part tables\<close>

text \<open>\<open>str.strip(c)\<close> for one character.\<close>

definition strip :: "char \<Rightarrow> string \<Rightarrow> string" where
  "strip c s = rev (dropWhile (\<lambda>x. x = c) (rev (dropWhile (\<lambda>x. x = c) s)))"

text \<open>The list \<open>[s.strip('`') for s in n.split('.')]\<close>.\<close>

definition segments :: "string \<Rightarrow> string list" where
  "segments n = map (strip (CHR 0x60)) (split (CHR ''.'') n)"

text \<open>
  The local function \<open>is_part\<close> of \<open>add_parts\<close>. The conjunction evaluates its right
  side only when the first segments are equal; an index \<open>[1]\<close> into a list of one
  segment raises \<open>IndexError\<close>.
\<close>

definition is_part :: "string \<Rightarrow> string \<Rightarrow> error + bool" where
  "is_part part mastr =
     (case (segments part, segments mastr) of
        (p0 # ps, m0 # ms) \<Rightarrow>
          (if m0 \<noteq> p0 then Inr False
           else (case ms of
                   [] \<Rightarrow> Inl IndexError
                 | m1 # _ \<Rightarrow>
                     (case ps of
                        [] \<Rightarrow> Inl IndexError
                      | p1 # _ \<Rightarrow> Inr (m1 @ ''__'' = take (length m1 + 2) p1))))
      | _ \<Rightarrow> Inl IndexError)"

text \<open>
  The relation "part of" in the words of the specification: the database segments
  are equal, and the table-name segment of the part begins with that of the master
  followed by \<open>__\<close>. The segments are the first two that \<open>is_part\<close> reads.
\<close>

definition database_segment :: "string \<Rightarrow> string" where
  "database_segment n = segments n ! 0"

definition table_segment :: "string \<Rightarrow> string" where
  "table_segment n = segments n ! 1"

definition part_of_spec :: "string \<Rightarrow> string \<Rightarrow> bool" where
  "part_of_spec part mastr =
     (database_segment part = database_segment mastr
      \<and> prefix (table_segment mastr @ ''__'') (table_segment part))"

text \<open>
  \<open>any(is_part(n, m) for m in self.nodes_to_show)\<close>. A set is iterated in no fixed
  order, so with an element for which \<open>is_part\<close> raises the outcome depends on the
  order; the model raises then.
\<close>

definition any_is_part :: "string \<Rightarrow> string set \<Rightarrow> error + bool" where
  "any_is_part n shown =
     (if \<exists>m \<in> shown. is_part n m = Inl IndexError then Inl IndexError
      else Inr (\<exists>m \<in> shown. is_part n m = Inr True))"

text \<open>
  The call \<open>self.nodes_to_show.update(n for n in self.nodes() if any(...))\<close>: the
  generator is consumed one node at a time, and a node is added to the set before
  the next node is tested, so that the test of a later node sees the nodes added
  before it.
\<close>

fun add_parts_loop :: "string list \<Rightarrow> string set \<Rightarrow> error + string set" where
  "add_parts_loop [] shown = Inr shown"
| "add_parts_loop (n # ns) shown =
     (case any_is_part n shown of
        Inl e \<Rightarrow> Inl e
      | Inr True \<Rightarrow> add_parts_loop ns (insert n shown)
      | Inr False \<Rightarrow> add_parts_loop ns shown)"

text \<open>\<open>ERD.add_parts\<close>.\<close>

definition add_parts :: "erd \<Rightarrow> error + erd" where
  "add_parts self =
     (case add_parts_loop (nodes self) (nodes_to_show self) of
        Inl e \<Rightarrow> Inl e
      | Inr shown \<Rightarrow> Inr (self\<lparr>nodes_to_show := shown\<rparr>))"

subsection \<open>The graph to draw\<close>

text \<open>\<open>DiGraph.subgraph\<close>: the nodes of the set and the edges between them.\<close>

definition subgraph :: "'a digraph_scheme \<Rightarrow> string set \<Rightarrow> digraph" where
  "subgraph G keep =
     \<lparr>nodes = filter (\<lambda>n. n \<in> keep) (nodes G),
      edges = filter (\<lambda>e. fst e \<in> keep \<and> snd e \<in> keep) (edges G)\<rparr>"

text \<open>The dictionary \<open>{n: _get_tier(n) for n in graph}\<close>.\<close>

fun node_types :: "string list \<Rightarrow> error + (string \<times> tier option) list" where
  "node_types [] = Inr []"
| "node_types (n # ns) =
     (case get_tier n of
        Inl e \<Rightarrow> Inl e
      | Inr t \<Rightarrow> (case node_types ns of Inl e \<Rightarrow> Inl e | Inr ts \<Rightarrow> Inr ((n, t) # ts)))"

text \<open>
  \<open>lookup_class_name(node, context) or node\<close>. The function \<open>lookup_class_name\<close> of
  \<open>base_relation\<close> is not among the source files; with its context it is the parameter
  \<open>lookup\<close>. A result that is \<open>None\<close> or the empty string gives the node itself.
\<close>

definition display_name :: "(string \<Rightarrow> string option) \<Rightarrow> string \<Rightarrow> string" where
  "display_name lookup node =
     (case lookup node of None \<Rightarrow> node | Some s \<Rightarrow> if s = [] then node else s)"

definition identical_names_msg :: string where
  "identical_names_msg = ''Some classes have identical names. The ERD cannot be plotted.''"

text \<open>
  The graph that is drawn: the labels of its nodes, each with the attribute
  \<open>node_type\<close>, and its edges.
\<close>

record render_graph =
  labelled :: "(string \<times> tier option) list"
  links :: "(string \<times> string) list"

text \<open>
  \<open>nx.relabel_nodes(graph, mapping, copy=False)\<close>, for labels that are not themselves
  nodes to rename: every node and every end point of an edge gets its label. Nodes
  with the same label become one node, which has the attribute of the node renamed
  last; the model renames in the order of the node list.
\<close>

definition relabel_nodes ::
  "(string \<times> tier option) list \<Rightarrow> (string \<times> string) list \<Rightarrow> (string \<Rightarrow> string)
     \<Rightarrow> render_graph" where
  "relabel_nodes types es mapping =
     \<lparr>labelled = fold (\<lambda>nt d. setitem (mapping (fst nt)) (snd nt) d) types [],
      links = remdups (map (\<lambda>e. (mapping (fst e), mapping (snd e))) es)\<rparr>"

text \<open>
  \<open>ERD._make_graph\<close>. \<open>new_names\<close> is the list \<open>[mapping.values()]\<close>: a list of one
  element, the collection of all values.
\<close>

definition make_graph :: "(string \<Rightarrow> string option) \<Rightarrow> erd \<Rightarrow> error + render_graph" where
  "make_graph lookup self =
     (let graph = subgraph self (nodes_to_show self) in
      case node_types (nodes graph) of
        Inl e \<Rightarrow> Inl e
      | Inr types \<Rightarrow>
          (let mapping = map (\<lambda>n. (n, display_name lookup n)) (nodes graph);
               new_names = [map snd mapping]
           in if length new_names > card (set new_names)
              then Inl (DataJointError identical_names_msg)
              else Inr (relabel_nodes types (edges graph) (display_name lookup))))"

subsection \<open>Layout\<close>

text \<open>
  \<open>ERD._layout\<close>, after the call of \<open>graphviz_layout\<close>: \<open>pos\<close> is the items of the
  position dictionary, with coordinates taken as real numbers. \<open>min\<close> of no values
  raises \<open>ValueError\<close>, a division by zero \<open>ZeroDivisionError\<close>. In the source the
  second coordinate subtracts \<open>m['x'][1]\<close>.
\<close>

definition layout :: "(string \<times> real \<times> real) list \<Rightarrow> error + (string \<times> real \<times> real) list" where
  "layout pos =
     (if pos = [] then Inl ValueError
      else
        (let mx = (Min (set (map (\<lambda>kv. fst (snd kv)) pos)),
                   Max (set (map (\<lambda>kv. fst (snd kv)) pos)));
             my = (Min (set (map (\<lambda>kv. snd (snd kv)) pos)),
                   Max (set (map (\<lambda>kv. snd (snd kv)) pos)))
         in if snd mx - fst mx = 0 \<or> snd my - fst my = 0 then Inl ZeroDivisionError
            else Inr (map (\<lambda>kv. (fst kv,
                                  (fst (snd kv) - fst mx) / (snd mx - fst mx),
                                  (snd (snd kv) - snd mx) / (snd my - fst my))) pos)))"

subsection \<open>Construction\<close>

text \<open>
  Reading an attribute either raises \<open>AttributeError\<close> (\<open>Missing\<close>) or gives a value.
\<close>

datatype 'a attr = Missing | Has 'a

text \<open>
  A connection, with the graph that \<open>dependencies\<close> holds after \<open>load()\<close>. A schema has,
  or has not, the attributes \<open>connection\<close> and \<open>database\<close>.
\<close>

record conn =
  dependencies :: digraph

record schema_obj =
  schema_connection :: "conn option attr"
  schema_database :: "string attr"

text \<open>
  What the constructor reads of its argument when this is not a diagram: the
  attributes \<open>connection\<close> (its value may be \<open>None\<close>, as for a class that no schema
  decorated), \<open>schema\<close>, \<open>full_table_name\<close> and \<open>database\<close>; the elements the object
  gives under an index, as their \<open>repr\<close>, or \<open>None\<close> for an object that cannot be
  indexed; and the \<open>repr\<close> of the object.
\<close>

record source =
  src_connection :: "conn option attr"
  src_schema :: "schema_obj attr"
  src_full_table_name :: "string attr"
  src_database :: "string attr"
  src_items :: "string list option"
  src_repr :: string

text \<open>\<open>repr(source[0])\<close>.\<close>

definition repr_first :: "source \<Rightarrow> error + string" where
  "repr_first src =
     (case src_items src of
        None \<Rightarrow> Inl TypeError
      | Some [] \<Rightarrow> Inl IndexError
      | Some (x # _) \<Rightarrow> Inr x)"

text \<open>The first \<open>try\<close> statement of \<open>ERD.__init__\<close>.\<close>

definition no_connection :: "source \<Rightarrow> error" where
  "no_connection src =
     (case repr_first src of
        Inl e \<Rightarrow> e
      | Inr r \<Rightarrow> DataJointError (''Could not find database connection in '' @ r))"

definition find_connection :: "source \<Rightarrow> error + conn option" where
  "find_connection src =
     (case src_connection src of
        Has c \<Rightarrow> Inr c
      | Missing \<Rightarrow>
          (case src_schema src of
             Missing \<Rightarrow> Inl (no_connection src)
           | Has s \<Rightarrow>
               (case schema_connection s of
                  Missing \<Rightarrow> Inl (no_connection src)
                | Has c \<Rightarrow> Inr c)))"

text \<open>The second \<open>try\<close> statement: the database whose nodes are shown.\<close>

definition find_database :: "source \<Rightarrow> error + string" where
  "find_database src =
     (case src_database src of
        Has d \<Rightarrow> Inr d
      | Missing \<Rightarrow>
          (case src_schema src of
             Missing \<Rightarrow> Inl (DataJointError (''Cannot plot ERD for '' @ src_repr src))
           | Has s \<Rightarrow>
               (case schema_database s of
                  Missing \<Rightarrow> Inl (DataJointError (''Cannot plot ERD for '' @ src_repr src))
                | Has d \<Rightarrow> Inr d)))"

text \<open>
  \<open>ERD.__init__\<close> for a source that is not a diagram (the copy of a diagram is the
  diagram). A connection that is \<open>None\<close> has no attribute \<open>dependencies\<close>.
\<close>

definition ERD_init :: "source \<Rightarrow> error + erd" where
  "ERD_init src =
     (case find_connection src of
        Inl e \<Rightarrow> Inl e
      | Inr None \<Rightarrow> Inl AttributeError
      | Inr (Some connection) \<Rightarrow>
          (let G = dependencies connection in
           case src_full_table_name src of
             Has t \<Rightarrow> Inr \<lparr>nodes = nodes G, edges = edges G, nodes_to_show = {t}\<rparr>
           | Missing \<Rightarrow>
               (case find_database src of
                  Inl e \<Rightarrow> Inl e
                | Inr db \<Rightarrow>
                    Inr \<lparr>nodes = nodes G, edges = edges G,
                         nodes_to_show =
                           set (filter (prefix (''`'' @ db @ ''`'')) (nodes G))\<rparr>)))"

text \<open>
  \<open>ERD.from_sequence\<close>: \<open>functools.reduce\<close> without an initial value over the lazy
  \<open>map(ERD, sequence)\<close>. On no element \<open>reduce\<close> raises \<open>TypeError\<close>; otherwise each
  diagram is constructed when the fold reaches it.
\<close>

fun reduce_add :: "erd \<Rightarrow> source list \<Rightarrow> error + erd" where
  "reduce_add x [] = Inr x"
| "reduce_add x (s # ss) =
     (case ERD_init s of
        Inl e \<Rightarrow> Inl e
      | Inr y \<Rightarrow> reduce_add (ERD_add x (Diagram y)) ss)"

definition from_sequence :: "source list \<Rightarrow> error + erd" where
  "from_sequence sequence =
     (case sequence of
        [] \<Rightarrow> Inl TypeError
      | s # ss \<Rightarrow> (case ERD_init s of Inl e \<Rightarrow> Inl e | Inr x \<Rightarrow> reduce_add x ss))"

section \<open>Example inputs\<close>

text \<open>
  An object with none of the attributes the constructor looks for and without
  indexing, such as a module that holds no schema.
\<close>

definition unindexable_source :: source where
  "unindexable_source =
     \<lparr>src_connection = Missing, src_schema = Missing, src_full_table_name = Missing,
      src_database = Missing, src_items = None, src_repr = ''<module 'lab'>''\<rparr>"

text \<open>The dependencies of a schema \<open>lab\<close>: a manual, an imported and a computed table.\<close>

definition lab_graph :: digraph where
  "lab_graph =
     \<lparr>nodes = [''`lab`.`a`'', ''`lab`.`_b`'', ''`lab`.`__c`''],
      edges = [(''`lab`.`a`'', ''`lab`.`_b`''), (''`lab`.`_b`'', ''`lab`.`__c`'')]\<rparr>"

text \<open>A table class of that schema, bound to a connection.\<close>

definition table_source :: "string \<Rightarrow> source" where
  "table_source t =
     \<lparr>src_connection = Has (Some \<lparr>dependencies = lab_graph\<rparr>), src_schema = Missing,
      src_full_table_name = Has t, src_database = Missing, src_items = None,
      src_repr = t\<rparr>"

text \<open>The diagram of the first table of \<open>lab_graph\<close>.\<close>

definition lab_a :: erd where
  "lab_a = \<lparr>nodes = nodes lab_graph, edges = edges lab_graph,
            nodes_to_show = {''`lab`.`a`''}\<rparr>"

text \<open>The diagram of the last table of \<open>lab_graph\<close>.\<close>

definition lab_c :: erd where
  "lab_c = \<lparr>nodes = nodes lab_graph, edges = edges lab_graph,
            nodes_to_show = {''`lab`.`__c`''}\<rparr>"

text \<open>
  Two schemas that each hold a table \<open>session\<close>, both shown, and a context in which
  both tables resolve to the class name \<open>Session\<close>.
\<close>

definition two_sessions :: erd where
  "two_sessions =
     \<lparr>nodes = [''`lab1`.`session`'', ''`lab2`.`session`''],
      edges = [(''`lab1`.`session`'', ''`lab2`.`session`'')],
      nodes_to_show = {''`lab1`.`session`'', ''`lab2`.`session`''}\<rparr>"

definition session_lookup :: "string \<Rightarrow> string option" where
  "session_lookup node =
     (if node = ''`lab1`.`session`'' \<or> node = ''`lab2`.`session`'' then Some ''Session''
      else None)"

text \<open>A master table and its part table, with the master shown.\<close>

definition master_shown :: erd where
  "master_shown =
     \<lparr>nodes = [''`lab`.`my_experiment`'', ''`lab`.`my_experiment__trial_info`'',
               ''`lab`.`other`''],
      edges = [(''`lab`.`my_experiment`'', ''`lab`.`my_experiment__trial_info`'')],
      nodes_to_show = {''`lab`.`my_experiment`''}\<rparr>"

text \<open>
  What the body of a class without docstring that declares \<open>x\<close>, \<open>y\<close> and \<open>z\<close>, in
  this order, does after its two first stores.
\<close>

definition xyz_body :: "string statement list" where
  "xyz_body = [Store ''x'' ''1'', Store ''y'' ''2'', Store ''z'' ''3'']"

text \<open>The same for a class with a docstring, as every tier class has one.\<close>

definition documented_body :: "string statement list" where
  "documented_body =
     [Store ''__doc__'' ''A manual table.'', Store ''x'' ''1'', Store ''y'' ''2'',
      Store ''z'' ''3'']"

text \<open>A body that declares \<open>x\<close> and \<open>y\<close> and then deletes \<open>x\<close>.\<close>

definition deleting_body :: "string statement list" where
  "deleting_body = [Store ''x'' ''1'', Store ''y'' ''2'', Delete ''x'']"

section \<open>Properties of the tier hierarchy\<close>

lemma from_camel_case_MyExperiment:
  "from_camel_case ''MyExperiment'' = ''my_experiment''"
  by code_simp

lemma from_camel_case_TrialInfo:
  "from_camel_case ''TrialInfo'' = ''trial_info''"
  by code_simp

lemma table_name_top:
  "t \<noteq> Part \<Longrightarrow> \<exists>p. prefix_of t = Some p \<and> table_name fcc (Relation t n d m) = Inr (Some (p @ fcc n))"
  by (cases t) simp_all

text \<open>
  Claim C1. A class of the Manual, Lookup, Imported or Computed tier has the table name
  made of the tier's prefix (empty, \<open>#\<close>, \<open>_\<close>, \<open>__\<close>) and the converted class name. A
  Part class without a master has no table name; with a master whose table name is
  \<open>s\<close> its table name is \<open>s\<close>, then \<open>__\<close>, then the converted class name, and a master
  of one of the four other tiers always has such a table name.
\<close>

theorem table_name_by_tier:
  "table_name fcc (Relation Manual n d m) = Inr (Some (fcc n))
   \<and> table_name fcc (Relation Lookup n d m) = Inr (Some (''#'' @ fcc n))
   \<and> table_name fcc (Relation Imported n d m) = Inr (Some (''_'' @ fcc n))
   \<and> table_name fcc (Relation Computed n d m) = Inr (Some (''__'' @ fcc n))
   \<and> table_name fcc (Relation Part n d None) = Inr None
   \<and> (table_name fcc mc = Inr (Some s) \<longrightarrow>
        table_name fcc (Relation Part n d (Some mc)) = Inr (Some (s @ ''__'' @ fcc n)))
   \<and> (tier mc \<noteq> Part \<longrightarrow> (\<exists>s. table_name fcc mc = Inr (Some s)))"
proof -
  have top: "tier mc \<noteq> Part \<longrightarrow> (\<exists>s. table_name fcc mc = Inr (Some s))"
  proof (cases mc)
    case (Relation t' n' d' m')
    then show ?thesis using table_name_top [of t' fcc n' d' m'] by auto
  qed
  show ?thesis using top by simp
qed

theorem table_name_by_tier_witness:
  "table_name from_camel_case (Relation Manual ''MyExperiment'' None None)
     = Inr (Some ''my_experiment'')
   \<and> table_name from_camel_case (Relation Lookup ''MyExperiment'' None None)
     = Inr (Some ''#my_experiment'')
   \<and> table_name from_camel_case
       (Relation Part ''TrialInfo'' None (Some (Relation Manual ''MyExperiment'' None None)))
     = Inr (Some ''my_experiment__trial_info'')"
proof -
  have m: "table_name from_camel_case (Relation Manual ''MyExperiment'' None None)
             = Inr (Some ''my_experiment'')"
    by (simp add: from_camel_case_MyExperiment)
  have "tier (Relation Manual ''MyExperiment'' None None) \<noteq> Part" by simp
  with m show ?thesis
    using table_name_by_tier [of from_camel_case "''TrialInfo''" None None
        "Relation Manual ''MyExperiment'' None None" "''my_experiment''"]
      table_name_by_tier [of from_camel_case "''MyExperiment''" None None
        "Relation Manual ''MyExperiment'' None None" "''my_experiment''"]
    by (simp add: from_camel_case_MyExperiment from_camel_case_TrialInfo)
qed

text \<open>
  Claim C2. For a class of a tier other than Part with no database, \<open>full_table_name\<close>
  raises the declaration error. For a Part class with no database or no table name it
  returns \<open>None\<close> and does not raise. When the database is \<open>db\<close> and the table name is
  \<open>tn\<close>, it returns the two, each in backticks, joined by a dot.
\<close>

theorem full_table_name_cases:
  "(tier c \<noteq> Part \<and> database c = None \<longrightarrow>
      full_table_name fcc c = Inl (DataJointError (not_declared_msg (name c))))
   \<and> (tier p = Part \<and> (database p = None \<or> table_name fcc p = Inr None) \<longrightarrow>
      full_table_name fcc p = Inr None)
   \<and> (database b = Some db \<and> table_name fcc b = Inr (Some tn) \<longrightarrow>
      full_table_name fcc b = Inr (Some (''`'' @ db @ ''`.`'' @ tn @ ''`'')))"
proof -
  have a: "tier c \<noteq> Part \<and> database c = None \<longrightarrow>
      full_table_name fcc c = Inl (DataJointError (not_declared_msg (name c)))"
    by (cases c) simp
  have b: "tier p = Part \<and> (database p = None \<or> table_name fcc p = Inr None) \<longrightarrow>
      full_table_name fcc p = Inr None"
    by (cases p) (auto split: option.splits sum.splits)
  have c: "database b = Some db \<and> table_name fcc b = Inr (Some tn) \<longrightarrow>
      full_table_name fcc b = Inr (Some (''`'' @ db @ ''`.`'' @ tn @ ''`''))"
    by (cases b) (auto simp: backquoted_def split: option.splits sum.splits)
  from a b c show ?thesis by blast
qed

theorem full_table_name_cases_witness:
  "full_table_name from_camel_case (Relation Manual ''MyExperiment'' None None)
     = Inl (DataJointError
         ''Class MyExperiment is not properly declared (schema decorator not applied?)'')
   \<and> full_table_name from_camel_case (Relation Part ''TrialInfo'' (Some ''lab'') None)
     = Inr None
   \<and> full_table_name from_camel_case (Relation Part ''TrialInfo'' None None) = Inr None
   \<and> full_table_name from_camel_case (Relation Lookup ''MyExperiment'' (Some ''lab'') None)
     = Inr (Some ''`lab`.`#my_experiment`'')"
  using
    full_table_name_cases [of "Relation Manual ''MyExperiment'' None None" from_camel_case
      "Relation Part ''TrialInfo'' (Some ''lab'') None"
      "Relation Lookup ''MyExperiment'' (Some ''lab'') None" "''lab''" "''#my_experiment''"]
    full_table_name_cases [of "Relation Manual ''MyExperiment'' None None" from_camel_case
      "Relation Part ''TrialInfo'' None None"
      "Relation Lookup ''MyExperiment'' (Some ''lab'') None" "''lab''" "''#my_experiment''"]
  by (simp add: from_camel_case_MyExperiment not_declared_msg_def backquoted_def)

section \<open>Declaration order\<close>

lemma keys_setitem:
  "map fst (setitem k v ns) = (if k \<in> set (map fst ns) then map fst ns else map fst ns @ [k])"
proof (induction ns)
  case Nil
  show ?case by simp
next
  case (Cons kv ns)
  show ?case
  proof (cases "fst kv = k")
    case True
    then show ?thesis by (cases kv) simp
  next
    case False
    then show ?thesis using Cons.IH by (cases kv) auto
  qed
qed

lemma remdups_drop_earlier:
  "k \<in> set bs \<Longrightarrow> remdups (as @ k # bs) = remdups (as @ bs)"
  by (induction as) auto

lemma first_kept_dup:
  assumes "k \<in> set xs"
  shows "rev (remdups (rev (xs @ k # ys))) = rev (remdups (rev (xs @ ys)))"
  using remdups_drop_earlier [of k "rev xs" "rev ys"] assms by simp

lemma exec_stores_keys:
  assumes "list_all is_store ss" and "distinct (map fst ns)"
  shows "\<exists>ns'. exec_body ss ns = Inr ns'
           \<and> map fst ns' = rev (remdups (rev (map fst ns @ map target ss)))"
  using assms
proof (induction ss arbitrary: ns)
  case Nil
  then show ?case by (simp add: distinct_remdups_id)
next
  case (Cons s ss)
  then obtain k v where s: "s = Store k v" by (cases s) auto
  have d: "distinct (map fst (setitem k v ns))"
    using Cons.prems(2) by (simp add: keys_setitem)
  from Cons.prems(1) have "list_all is_store ss" by simp
  from Cons.IH [OF this d] obtain ns' where
    ns': "exec_body ss (setitem k v ns) = Inr ns'"
      "map fst ns' = rev (remdups (rev (map fst (setitem k v ns) @ map target ss)))"
    by blast
  have "rev (remdups (rev (map fst (setitem k v ns) @ map target ss)))
          = rev (remdups (rev (map fst ns @ k # map target ss)))"
  proof (cases "k \<in> set (map fst ns)")
    case True
    then show ?thesis
      using first_kept_dup [of k "map fst ns" "map target ss"] by (simp add: keys_setitem)
  next
    case False
    then show ?thesis by (simp add: keys_setitem)
  qed
  with ns' show ?case by (simp add: s)
qed

lemma remdups_snoc:
  "remdups (ys @ [x]) = filter (\<lambda>y. y \<noteq> x) (remdups ys) @ [x]"
  by (induction ys) auto

lemma first_kept_Cons:
  "rev (remdups (rev (x # xs))) = x # filter (\<lambda>y. y \<noteq> x) (rev (remdups (rev xs)))"
  by (simp add: remdups_snoc rev_filter)

lemma first_kept_filter:
  assumes "filter P xs = names" and "distinct names"
  shows "filter P (rev (remdups (rev xs))) = names"
proof -
  have "filter P (rev (remdups (rev xs))) = rev (remdups (rev (filter P xs)))"
    by (simp add: rev_filter remdups_filter)
  also have "\<dots> = names" using assms by (simp add: distinct_remdups_id)
  finally show ?thesis .
qed


text \<open>
  Claim C7, as amended. When the body only stores names, and the stores to the
  declared names are one each, in source order, among whatever else the body
  stores, the class is made and its captured sequence is the names of the
  namespace in the order of their first store. It begins with \<open>__module__\<close> and
  \<open>__qualname__\<close>, and the declared names stand in it in source order: leaving out
  every other name gives exactly the declared names.
\<close>

theorem ordered_members_insertion_order:
  "list_all is_store rest \<and> distinct names
     \<and> ''__module__'' \<notin> set names \<and> ''__qualname__'' \<notin> set names
     \<and> filter (\<lambda>k. k \<in> set names) (map target rest) = names \<longrightarrow>
   (\<exists>c. class_statement modname qualname rest = Inr c
        \<and> ordered_class_members c =
            rev (remdups (rev (''__module__'' # ''__qualname__'' # map target rest)))
        \<and> take 2 (ordered_class_members c) = [''__module__'', ''__qualname__'']
        \<and> filter (\<lambda>k. k \<in> set names) (ordered_class_members c) = names)"
proof
  assume a: "list_all is_store rest \<and> distinct names
     \<and> ''__module__'' \<notin> set names \<and> ''__qualname__'' \<notin> set names
     \<and> filter (\<lambda>k. k \<in> set names) (map target rest) = names"
  let ?all = "''__module__'' # ''__qualname__'' # map target rest"
  let ?ss = "Store ''__module__'' modname # Store ''__qualname__'' qualname # rest"
  have "list_all is_store ?ss" using a by simp
  moreover have "distinct (map fst (prepare :: 'a ordered_dict))" by (simp add: prepare_def)
  ultimately obtain ns where ns: "exec_body ?ss (prepare :: 'a ordered_dict) = Inr ns"
    "map fst ns = rev (remdups (rev (map fst (prepare :: 'a ordered_dict) @ map target ?ss)))"
    using exec_stores_keys [of ?ss "prepare :: 'a ordered_dict"] by blast
  have keys: "map fst ns = rev (remdups (rev ?all))"
    using ns(2) by (simp add: prepare_def)
  have c: "class_statement modname qualname rest = Inr (OrderedClass_new ns)"
    using ns(1) by (simp add: class_statement_def class_body_def)
  have m: "ordered_class_members (OrderedClass_new ns) = rev (remdups (rev ?all))"
    using keys by (simp add: OrderedClass_new_def)
  have "rev (remdups (rev ?all)) =
          ''__module__'' # ''__qualname__'' #
            filter (\<lambda>y. y \<noteq> ''__module__'')
              (filter (\<lambda>y. y \<noteq> ''__qualname__'') (rev (remdups (rev (map target rest)))))"
    by (simp only: first_kept_Cons [of "''__module__''"] first_kept_Cons [of "''__qualname__''"])
       simp
  then have t: "take 2 (rev (remdups (rev ?all))) = [''__module__'', ''__qualname__'']"
    by simp
  have "filter (\<lambda>k. k \<in> set names) ?all = names" using a by simp
  then have f: "filter (\<lambda>k. k \<in> set names) (rev (remdups (rev ?all))) = names"
    using a by (intro first_kept_filter) simp_all
  from c m t f show "\<exists>c. class_statement modname qualname rest = Inr c
        \<and> ordered_class_members c =
            rev (remdups (rev (''__module__'' # ''__qualname__'' # map target rest)))
        \<and> take 2 (ordered_class_members c) = [''__module__'', ''__qualname__'']
        \<and> filter (\<lambda>k. k \<in> set names) (ordered_class_members c) = names"
    by (intro exI [of _ "OrderedClass_new ns"]) simp
qed

lemma documented_members:
  "class_statement ''lab'' ''A'' documented_body =
     Inr (OrderedClass_new
           [(''__module__'', ''lab''), (''__qualname__'', ''A''),
            (''__doc__'', ''A manual table.''), (''x'', ''1''), (''y'', ''2''), (''z'', ''3'')])"
  by (simp add: class_statement_def class_body_def documented_body_def prepare_def)

theorem ordered_members_insertion_order_witness:
  "list_all is_store documented_body \<and> distinct [''x'', ''y'', ''z'']
   \<and> ''__module__'' \<notin> set [''x'', ''y'', ''z'']
   \<and> ''__qualname__'' \<notin> set [''x'', ''y'', ''z'']
   \<and> filter (\<lambda>k. k \<in> set [''x'', ''y'', ''z'']) (map target documented_body)
       = [''x'', ''y'', ''z'']
   \<and> (\<exists>c. class_statement ''lab'' ''A'' documented_body = Inr c
          \<and> ordered_class_members c
              = [''__module__'', ''__qualname__'', ''__doc__'', ''x'', ''y'', ''z'']
          \<and> filter (\<lambda>k. k \<in> set [''x'', ''y'', ''z'']) (ordered_class_members c)
              = [''x'', ''y'', ''z''])"
proof -
  have h: "list_all is_store documented_body \<and> distinct [''x'', ''y'', ''z'']
     \<and> ''__module__'' \<notin> set [''x'', ''y'', ''z'']
     \<and> ''__qualname__'' \<notin> set [''x'', ''y'', ''z'']
     \<and> filter (\<lambda>k. k \<in> set [''x'', ''y'', ''z'']) (map target documented_body)
         = [''x'', ''y'', ''z'']"
    by (simp add: documented_body_def)
  from ordered_members_insertion_order [of documented_body "[''x'', ''y'', ''z'']"
      "''lab''" "''A''"] h
  obtain c where c: "class_statement ''lab'' ''A'' documented_body = Inr c"
    "filter (\<lambda>k. k \<in> set [''x'', ''y'', ''z'']) (ordered_class_members c)
       = [''x'', ''y'', ''z'']"
    by blast
  from c(1) have "c = OrderedClass_new
           [(''__module__'', ''lab''), (''__qualname__'', ''A''),
            (''__doc__'', ''A manual table.''), (''x'', ''1''), (''y'', ''2''), (''z'', ''3'')]"
    by (simp add: documented_members)
  then have "ordered_class_members c
      = [''__module__'', ''__qualname__'', ''__doc__'', ''x'', ''y'', ''z'']"
    by (simp add: OrderedClass_new_def)
  with h c show ?thesis by blast
qed

text \<open>
  Claim C7 as stated fails: for the members \<open>x\<close>, \<open>y\<close>, \<open>z\<close> the captured sequence is
  not \<open>x\<close>, \<open>y\<close>, \<open>z\<close>, since the names stored by the class statement itself are
  in it.
\<close>

theorem ordered_members_counterexample:
  "map target xyz_body = [''x'', ''y'', ''z'']
   \<and> class_statement ''lab'' ''A'' xyz_body =
       Inr (OrderedClass_new
             [(''__module__'', ''lab''), (''__qualname__'', ''A''),
              (''x'', ''1''), (''y'', ''2''), (''z'', ''3'')])
   \<and> ordered_class_members
         (OrderedClass_new
           [(''__module__'', ''lab''), (''__qualname__'', ''A''),
            (''x'', ''1''), (''y'', ''2''), (''z'', ''3'')])
       \<noteq> [''x'', ''y'', ''z'']"
  by (simp add: xyz_body_def class_statement_def class_body_def prepare_def
        OrderedClass_new_def)

text \<open>A deleted name is not in the captured sequence.\<close>

lemma deleted_member_absent:
  "class_statement ''lab'' ''A'' deleting_body =
     Inr (OrderedClass_new
           [(''__module__'', ''lab''), (''__qualname__'', ''A''), (''y'', ''2'')])"
  by (simp add: deleting_body_def class_statement_def class_body_def prepare_def
        delitem_def)

section \<open>Tier classification\<close>

inductive_simps matches_Never: "matches Never s"
inductive_simps matches_Empty: "matches Empty s"
inductive_simps matches_Lit: "matches (Lit c) s"
inductive_simps matches_Chars: "matches (Chars rs) s"
inductive_simps matches_Cat: "matches (Cat p q) s"
inductive_simps matches_Or: "matches (Or p q) s"
inductive_simps matches_Plus: "matches (Plus p) s"

lemma nullable_iff: "nullable p \<longleftrightarrow> matches p []"
  by (induction p)
     (simp_all add: matches_Never matches_Empty matches_Lit matches_Chars matches_Cat
        matches_Or matches_Plus m_star0)

lemma star_cons_split:
  assumes "matches q w" and "q = Star p" and "w = c # s"
  shows "\<exists>u v. s = u @ v \<and> matches p (c # u) \<and> matches (Star p) v"
  using assms
proof (induction q w arbitrary: s rule: matches.induct)
  case (m_star p' u v)
  show ?case
  proof (cases u)
    case Nil
    with m_star show ?thesis by simp
  next
    case (Cons a u')
    with m_star.prems have "a = c" and "s = u' @ v" by simp_all
    with m_star.hyps(1,2) m_star.prems(1) Cons show ?thesis by blast
  qed
qed simp_all

lemma matches_Star_Cons:
  "matches (Star p) (c # s) \<longleftrightarrow>
     (\<exists>u v. s = u @ v \<and> matches p (c # u) \<and> matches (Star p) v)"
proof
  assume "matches (Star p) (c # s)"
  then show "\<exists>u v. s = u @ v \<and> matches p (c # u) \<and> matches (Star p) v"
    by (rule star_cons_split) simp_all
next
  assume "\<exists>u v. s = u @ v \<and> matches p (c # u) \<and> matches (Star p) v"
  then obtain u v where "s = u @ v" "matches p (c # u)" "matches (Star p) v" by blast
  then show "matches (Star p) (c # s)" using m_star [of p "c # u" v] by simp
qed

lemma cons_split:
  "(\<exists>u v. c # s = u @ v \<and> P u \<and> Q v) \<longleftrightarrow>
     (P [] \<and> Q (c # s)) \<or> (\<exists>u v. s = u @ v \<and> P (c # u) \<and> Q v)"
proof
  assume "\<exists>u v. c # s = u @ v \<and> P u \<and> Q v"
  then obtain u v where uv: "c # s = u @ v" "P u" "Q v" by blast
  show "(P [] \<and> Q (c # s)) \<or> (\<exists>u v. s = u @ v \<and> P (c # u) \<and> Q v)"
  proof (cases u)
    case Nil
    with uv show ?thesis by simp
  next
    case (Cons a u')
    with uv have "s = u' @ v" "P (c # u')" by simp_all
    with uv(3) show ?thesis by blast
  qed
next
  assume "(P [] \<and> Q (c # s)) \<or> (\<exists>u v. s = u @ v \<and> P (c # u) \<and> Q v)"
  then show "\<exists>u v. c # s = u @ v \<and> P u \<and> Q v"
  proof
    assume "P [] \<and> Q (c # s)"
    then have "c # s = [] @ (c # s) \<and> P [] \<and> Q (c # s)" by simp
    then show ?thesis by blast
  next
    assume "\<exists>u v. s = u @ v \<and> P (c # u) \<and> Q v"
    then obtain u v where "s = u @ v" "P (c # u)" "Q v" by blast
    then have "c # s = (c # u) @ v \<and> P (c # u) \<and> Q v" by simp
    then show ?thesis by blast
  qed
qed

lemma after_iff: "matches (after c p) s \<longleftrightarrow> matches p (c # s)"
proof (induction p arbitrary: s)
  case (Cat p q)
  have "matches (Cat p q) (c # s) \<longleftrightarrow>
          (matches p [] \<and> matches q (c # s)) \<or>
          (\<exists>u v. s = u @ v \<and> matches p (c # u) \<and> matches q v)"
    unfolding matches_Cat by (rule cons_split)
  then show ?case
    by (auto simp: matches_Cat matches_Or Cat nullable_iff)
next
  case (Star p)
  show ?case by (simp add: matches_Cat Star matches_Star_Cons)
next
  case (Plus p)
  have "matches (Plus p) (c # s) \<longleftrightarrow>
          (matches p [] \<and> matches (Star p) (c # s)) \<or>
          (\<exists>u v. s = u @ v \<and> matches p (c # u) \<and> matches (Star p) v)"
    unfolding matches_Plus by (rule cons_split)
  then show ?case
    by (auto simp: matches_Cat Plus matches_Star_Cons)
qed (auto simp: matches_Never matches_Empty matches_Lit matches_Chars matches_Or list_ex_iff)

lemma fullmatch_iff_matches: "fullmatch p s \<longleftrightarrow> matches p s"
  by (induction s arbitrary: p) (simp_all add: nullable_iff after_iff)

lemma split_nonempty: "split sep s \<noteq> []"
  by (induction s) (auto split: list.splits)

lemma split_free: "sep \<notin> set s \<Longrightarrow> split sep s = [s]"
  by (induction s) auto

lemma split_append: "split sep (u @ sep # v) = split sep u @ split sep v"
  by (induction u) (auto simp: split_nonempty split: list.splits)

lemma split_quoted_tail:
  assumes "sep \<notin> set tn"
  shows "split sep (pre @ sep # tn @ [sep]) = split sep pre @ [tn, []]"
  using assms by (simp add: split_append split_free)

lemma get_tier_segment:
  assumes "CHR 0x60 \<notin> set seg"
  shows "get_tier (pre @ ''`'' @ seg @ ''`'') =
           Inr (find (\<lambda>t. fullmatch (tier_regexp t) seg) user_relation_classes)"
proof -
  have "split (CHR 0x60) (pre @ ''`'' @ seg @ ''`'') = split (CHR 0x60) pre @ [seg, []]"
    using split_quoted_tail [OF assms, of pre] by simp
  then show ?thesis
    by (simp add: get_tier_def Let_def nth_append)
qed

lemma get_tier_of:
  assumes "CHR 0x60 \<notin> set seg"
    and "find (\<lambda>t. fullmatch (tier_regexp t) seg) user_relation_classes = r"
  shows "get_tier (pre @ ''`'' @ seg @ ''`'') = Inr r"
  using get_tier_segment [OF assms(1), of pre] assms(2) by simp

lemma classify_examples:
  "find (\<lambda>t. fullmatch (tier_regexp t) ''mytable'') user_relation_classes = Some Manual"
  "find (\<lambda>t. fullmatch (tier_regexp t) ''#mytable'') user_relation_classes = Some Lookup"
  "find (\<lambda>t. fullmatch (tier_regexp t) ''_mytable'') user_relation_classes = Some Imported"
  "find (\<lambda>t. fullmatch (tier_regexp t) ''__mytable'') user_relation_classes = Some Computed"
  "find (\<lambda>t. fullmatch (tier_regexp t) ''CapitalName'') user_relation_classes = None"
  "find (\<lambda>t. fullmatch (tier_regexp t) ''1table'') user_relation_classes = None"
  by code_simp+

text \<open>
  Claim C3. For an identifier that ends with a table-name segment in backticks, the
  classification is the first tier, in the order Manual, Lookup, Computed, Imported,
  Part, whose pattern matches the whole segment, and no tier when none does. The
  segment \<open>mytable\<close> is Manual, \<open>#mytable\<close> Lookup, \<open>_mytable\<close> Imported, \<open>__mytable\<close>
  Computed, and \<open>CapitalName\<close> and \<open>1table\<close> have no tier.
\<close>

theorem get_tier_first_match:
  "(CHR 0x60 \<notin> set seg \<longrightarrow>
      get_tier (pre @ ''`'' @ seg @ ''`'') =
        Inr (find (\<lambda>t. matches (tier_regexp t) seg) [Manual, Lookup, Computed, Imported, Part]))
   \<and> get_tier (pre @ ''`mytable`'') = Inr (Some Manual)
   \<and> get_tier (pre @ ''`#mytable`'') = Inr (Some Lookup)
   \<and> get_tier (pre @ ''`_mytable`'') = Inr (Some Imported)
   \<and> get_tier (pre @ ''`__mytable`'') = Inr (Some Computed)
   \<and> get_tier (pre @ ''`CapitalName`'') = Inr None
   \<and> get_tier (pre @ ''`1table`'') = Inr None"
proof -
  have general: "CHR 0x60 \<notin> set seg \<longrightarrow>
      get_tier (pre @ ''`'' @ seg @ ''`'') =
        Inr (find (\<lambda>t. matches (tier_regexp t) seg) [Manual, Lookup, Computed, Imported, Part])"
    using get_tier_segment [of seg pre]
    by (simp add: fullmatch_iff_matches user_relation_classes_def)
  have e1: "get_tier (pre @ ''`mytable`'') = Inr (Some Manual)"
    using get_tier_of [OF _ classify_examples(1), of pre] by simp
  have e2: "get_tier (pre @ ''`#mytable`'') = Inr (Some Lookup)"
    using get_tier_of [OF _ classify_examples(2), of pre] by simp
  have e3: "get_tier (pre @ ''`_mytable`'') = Inr (Some Imported)"
    using get_tier_of [OF _ classify_examples(3), of pre] by simp
  have e4: "get_tier (pre @ ''`__mytable`'') = Inr (Some Computed)"
    using get_tier_of [OF _ classify_examples(4), of pre] by simp
  have e5: "get_tier (pre @ ''`CapitalName`'') = Inr None"
    using get_tier_of [OF _ classify_examples(5), of pre] by simp
  have e6: "get_tier (pre @ ''`1table`'') = Inr None"
    using get_tier_of [OF _ classify_examples(6), of pre] by simp
  from general e1 e2 e3 e4 e5 e6 show ?thesis by blast
qed

lemma matches_trial_info:
  "find (\<lambda>t. fullmatch (tier_regexp t) ''my_experiment__trial_info'') user_relation_classes
     = Some Part"
  by code_simp

theorem get_tier_first_match_witness:
  "CHR 0x60 \<notin> set ''my_experiment__trial_info''
   \<and> get_tier ''`lab`.`my_experiment__trial_info`'' = Inr (Some Part)"
proof -
  have f: "find (\<lambda>t. matches (tier_regexp t) ''my_experiment__trial_info'')
             [Manual, Lookup, Computed, Imported, Part] = Some Part"
    using matches_trial_info by (simp add: fullmatch_iff_matches user_relation_classes_def)
  have n: "CHR 0x60 \<notin> set ''my_experiment__trial_info''" by simp
  show ?thesis
    using n f get_tier_first_match [of "''my_experiment__trial_info''" "''`lab`.''"]
    by simp
qed

section \<open>Construction of a diagram\<close>

lemma init_no_connection:
  assumes "src_connection src = Missing"
    and "src_schema src = Missing
         \<or> (\<exists>s. src_schema src = Has s \<and> schema_connection s = Missing)"
  shows "ERD_init src = Inl (no_connection src)"
  using assms by (auto simp: ERD_init_def find_connection_def)

lemma init_no_connection_indexable:
  assumes "src_connection src = Missing"
    and "src_schema src = Missing
         \<or> (\<exists>s. src_schema src = Has s \<and> schema_connection s = Missing)"
    and "src_items src = Some (r # rs)"
  shows "ERD_init src =
           Inl (DataJointError (''Could not find database connection in '' @ r))"
  using init_no_connection [OF assms(1,2)] assms(3)
  by (simp add: no_connection_def repr_first_def)

text \<open>
  Claim C9, at an input where the code departs from it. The source has no attribute
  \<open>connection\<close> and no attribute \<open>schema\<close>, and it cannot be indexed: the expression
  \<open>source[0]\<close> inside the error message raises \<open>TypeError\<close>, and the constructor
  fails with that error, not with a \<open>DataJointError\<close>.
\<close>

theorem init_unindexable_source:
  "src_connection unindexable_source = Missing
   \<and> src_schema unindexable_source = Missing
   \<and> ERD_init unindexable_source = Inl TypeError"
  by (simp add: unindexable_source_def ERD_init_def find_connection_def no_connection_def
        repr_first_def)

text \<open>
  Claim C10. \<open>from_sequence\<close> on the empty sequence fails, with the \<open>TypeError\<close> of
  \<open>reduce\<close>; whenever \<open>from_sequence\<close> returns a diagram, the sequence was not empty.
\<close>

theorem from_sequence_empty:
  "from_sequence [] = Inl TypeError
   \<and> (from_sequence sequence = Inr e \<longrightarrow> sequence \<noteq> [])"
  by (auto simp: from_sequence_def)

theorem from_sequence_empty_witness:
  "from_sequence [table_source ''`lab`.`a`'', table_source ''`lab`.`_b`'']
     = Inr \<lparr>nodes = nodes lab_graph, edges = edges lab_graph,
            nodes_to_show = {''`lab`.`a`'', ''`lab`.`_b`''}\<rparr>
   \<and> [table_source ''`lab`.`a`'', table_source ''`lab`.`_b`''] \<noteq> []"
  using from_sequence_empty [of "[table_source ''`lab`.`a`'', table_source ''`lab`.`_b`'']"
      "\<lparr>nodes = nodes lab_graph, edges = edges lab_graph,
            nodes_to_show = {''`lab`.`a`'', ''`lab`.`_b`''}\<rparr>"]
  by (auto simp: from_sequence_def ERD_init_def find_connection_def table_source_def
        ERD_add_def)

section \<open>The graph to draw\<close>

lemma get_tier_error: "get_tier n = Inl e \<Longrightarrow> e = IndexError"
  by (auto simp: get_tier_def Let_def split: if_splits)

lemma node_types_error: "node_types ns = Inl e \<Longrightarrow> e = IndexError"
  by (induction ns) (auto split: sum.splits dest: get_tier_error)

text \<open>The check of \<open>_make_graph\<close> compares 1 with 1: it raises for no diagram.\<close>

lemma make_graph_never_ambiguous:
  "make_graph lookup e \<noteq> Inl (DataJointError identical_names_msg)"
  by (auto simp: make_graph_def Let_def split: sum.splits dest: node_types_error)

lemma get_tier_sessions:
  "get_tier ''`lab1`.`session`'' = Inr (Some Manual)"
  "get_tier ''`lab2`.`session`'' = Inr (Some Manual)"
  by code_simp+

text \<open>
  Claim C6, at an input where the code departs from it. Two different shown nodes
  have the same display name \<open>Session\<close>; \<open>_make_graph\<close> does not raise the error about
  identical names and returns a graph in which the two nodes are one.
\<close>

theorem make_graph_same_names:
  "''`lab1`.`session`'' \<in> nodes_to_show two_sessions
   \<and> ''`lab2`.`session`'' \<in> nodes_to_show two_sessions
   \<and> ''`lab1`.`session`'' \<noteq> ''`lab2`.`session`''
   \<and> display_name session_lookup ''`lab1`.`session`'' = ''Session''
   \<and> display_name session_lookup ''`lab2`.`session`'' = ''Session''
   \<and> make_graph session_lookup two_sessions =
       Inr \<lparr>labelled = [(''Session'', Some Manual)], links = [(''Session'', ''Session'')]\<rparr>"
  by (simp add: make_graph_def two_sessions_def subgraph_def display_name_def
        session_lookup_def Let_def get_tier_sessions relabel_nodes_def)

section \<open>Layout\<close>

text \<open>
  Claim C8, at an input where the code departs from it. For the positions \<open>(0, 0)\<close>
  and \<open>(1, 2)\<close> the bounds are 0 and 1 on the first axis, 0 and 2 on the second. The
  second coordinates come out as \<open>-1/2\<close> and \<open>1/2\<close>, where \<open>(y - ymin) / (ymax - ymin)\<close>
  is 0 and 1, and the first of them is outside the unit interval.
\<close>

theorem layout_two_nodes:
  "layout [(''A'', 0, 0), (''B'', 1, 2)] = Inr [(''A'', 0, - 1 / 2), (''B'', 1, 1 / 2)]"
  by (simp add: layout_def)

section \<open>Expansion by a number of steps\<close>

lemma node_boundary_iff:
  assumes "well_formed G"
  shows "node_boundary G S = {v. v \<notin> S \<and> (\<exists>u \<in> S. (u, v) \<in> set (edges G))}"
proof (intro set_eqI iffI)
  fix v assume "v \<in> node_boundary G S"
  then obtain u where u: "(u, v) \<in> set (edges G)" "u \<in> S" "u \<in> set (nodes G)"
    and v: "v \<notin> S \<or> v \<notin> set (nodes G)"
    by (auto simp: node_boundary_def Let_def)
  from assms u(1) have "v \<in> set (nodes G)" by (auto simp: well_formed_def)
  with v u show "v \<in> {v. v \<notin> S \<and> (\<exists>u \<in> S. (u, v) \<in> set (edges G))}" by blast
next
  fix v assume "v \<in> {v. v \<notin> S \<and> (\<exists>u \<in> S. (u, v) \<in> set (edges G))}"
  then obtain u where u: "(u, v) \<in> set (edges G)" "u \<in> S" and v: "v \<notin> S" by blast
  from assms u(1) have "u \<in> set (nodes G)" by (auto simp: well_formed_def)
  with u v show "v \<in> node_boundary G S"
    by (force simp: node_boundary_def Let_def image_iff)
qed

lemma well_formed_reverse: "well_formed G \<Longrightarrow> well_formed (reverse G)"
  by (auto simp: well_formed_def reverse_def)

lemma node_boundary_reverse:
  assumes "well_formed G"
  shows "node_boundary (reverse G) S = {v. v \<notin> S \<and> (\<exists>u \<in> S. (v, u) \<in> set (edges G))}"
  unfolding node_boundary_iff [OF well_formed_reverse [OF assms]]
  by (auto simp: reverse_def image_iff) force+

lemma node_boundary_fields:
  "nodes G = nodes H \<Longrightarrow> edges G = edges H \<Longrightarrow> node_boundary G = node_boundary H"
  by (rule ext) (simp add: node_boundary_def)

lemma expand_loop_fields:
  "nodes G = nodes H \<Longrightarrow> edges G = edges H \<Longrightarrow> expand_loop G k S = expand_loop H k S"
  by (induction k arbitrary: S) (simp_all add: node_boundary_fields [of G H] Let_def)

lemma grow_fixed: "node_boundary G S = {} \<Longrightarrow> (grow G ^^ k) S = S"
  by (induction k) (simp_all add: grow_def)

lemma expand_loop_funpow: "expand_loop G k S = (grow G ^^ k) S"
proof (induction k arbitrary: S)
  case 0
  show ?case by simp
next
  case (Suc k)
  show ?case
  proof (cases "node_boundary G S = {}")
    case True
    then show ?thesis using grow_fixed [of G S "Suc k"] by simp
  next
    case False
    have g: "S \<union> node_boundary G S = grow G S" by (simp add: grow_def)
    have "expand_loop G (Suc k) S = expand_loop G k (S \<union> node_boundary G S)"
      using False by simp
    also have "\<dots> = (grow G ^^ k) (grow G S)" unfolding g by (rule Suc.IH)
    finally show ?thesis by (simp add: funpow_swap1)
  qed
qed

lemma expand_loop_steps:
  "\<exists>k\<le>n. expand_loop G n S = (grow G ^^ k) S
     \<and> (\<forall>j<k. node_boundary G ((grow G ^^ j) S) \<noteq> {})
     \<and> (k < n \<longrightarrow> node_boundary G ((grow G ^^ k) S) = {})"
proof (induction n arbitrary: S)
  case 0
  show ?case by simp
next
  case (Suc n)
  show ?case
  proof (cases "node_boundary G S = {}")
    case True
    then have "expand_loop G (Suc n) S = (grow G ^^ 0) S" by simp
    with True show ?thesis by (intro exI [of _ 0]) simp
  next
    case False
    obtain k where k: "k \<le> n" "expand_loop G n (grow G S) = (grow G ^^ k) (grow G S)"
      "\<forall>j<k. node_boundary G ((grow G ^^ j) (grow G S)) \<noteq> {}"
      "k < n \<longrightarrow> node_boundary G ((grow G ^^ k) (grow G S)) = {}"
      using Suc.IH [of "grow G S"] by blast
    have g: "S \<union> node_boundary G S = grow G S" by (simp add: grow_def)
    have "expand_loop G (Suc n) S = expand_loop G n (S \<union> node_boundary G S)"
      using False by simp
    also have "\<dots> = (grow G ^^ k) (grow G S)" unfolding g by (rule k(2))
    finally have e: "expand_loop G (Suc n) S = (grow G ^^ Suc k) S"
      by (simp add: funpow_swap1)
    have a: "\<forall>j<Suc k. node_boundary G ((grow G ^^ j) S) \<noteq> {}"
    proof (intro allI impI)
      fix j assume "j < Suc k"
      show "node_boundary G ((grow G ^^ j) S) \<noteq> {}"
      proof (cases j)
        case 0
        with False show ?thesis by simp
      next
        case (Suc j')
        with \<open>j < Suc k\<close> have "j' < k" by simp
        with k(3) Suc show ?thesis by (simp add: funpow_swap1)
      qed
    qed
    have s: "Suc k < Suc n \<longrightarrow> node_boundary G ((grow G ^^ Suc k) S) = {}"
      using k(4) by (simp add: funpow_swap1)
    from k(1) e a s show ?thesis by (intro exI [of _ "Suc k"]) simp
  qed
qed


text \<open>
  Claim C4. \<open>e + n\<close> applies \<open>k\<close> steps for some \<open>k\<close> of at most \<open>n\<close>, each step
  joining the boundary to the shown set; every step before the \<open>k\<close>-th found a
  boundary that was not empty, and when \<open>k\<close> is less than \<open>n\<close> the boundary after \<open>k\<close>
  steps is empty. The graph is unchanged. For \<open>n\<close> of zero or less the shown set is
  that of \<open>e\<close>. \<open>e - n\<close> returns \<open>e\<close> with the shown set that \<open>+ n\<close> gives on the
  reversed edges. In a graph whose edges join nodes of the graph, the boundary is
  the set of nodes not shown that an edge from a shown node leads to, and in the
  reversed graph the nodes not shown from which an edge leads to a shown node.
\<close>

theorem expansion_by_count:
  "(\<exists>k\<le>nat n. nodes_to_show (ERD_add e (Count n)) = (grow e ^^ k) (nodes_to_show e)
       \<and> (\<forall>j<k. node_boundary e ((grow e ^^ j) (nodes_to_show e)) \<noteq> {})
       \<and> (k < nat n \<longrightarrow> node_boundary e ((grow e ^^ k) (nodes_to_show e)) = {}))
   \<and> nodes (ERD_add e (Count n)) = nodes e \<and> edges (ERD_add e (Count n)) = edges e
   \<and> (n \<le> 0 \<longrightarrow> nodes_to_show (ERD_add e (Count n)) = nodes_to_show e)
   \<and> ERD_sub e (Count n) =
       Inr (e\<lparr>nodes_to_show :=
               nodes_to_show (ERD_add (e\<lparr>edges := edges (reverse e)\<rparr>) (Count n))\<rparr>)
   \<and> (well_formed e \<longrightarrow>
        node_boundary e S = {v. v \<notin> S \<and> (\<exists>u\<in>S. (u, v) \<in> set (edges e))}
        \<and> node_boundary (reverse e) S = {v. v \<notin> S \<and> (\<exists>u\<in>S. (v, u) \<in> set (edges e))})"
proof -
  have steps: "\<exists>k\<le>nat n. nodes_to_show (ERD_add e (Count n)) = (grow e ^^ k) (nodes_to_show e)
       \<and> (\<forall>j<k. node_boundary e ((grow e ^^ j) (nodes_to_show e)) \<noteq> {})
       \<and> (k < nat n \<longrightarrow> node_boundary e ((grow e ^^ k) (nodes_to_show e)) = {})"
    using expand_loop_steps [of "nat n" e "nodes_to_show e"] by (simp add: ERD_add_def)
  have frame: "nodes (ERD_add e (Count n)) = nodes e \<and> edges (ERD_add e (Count n)) = edges e"
    by (simp add: ERD_add_def)
  have zero: "n \<le> 0 \<longrightarrow> nodes_to_show (ERD_add e (Count n)) = nodes_to_show e"
    by (simp add: ERD_add_def)
  have "expand_loop (reverse e) (nat n) (nodes_to_show e)
          = expand_loop (e\<lparr>edges := edges (reverse e)\<rparr>) (nat n) (nodes_to_show e)"
    by (rule expand_loop_fields) (simp_all add: reverse_def)
  then have sub: "ERD_sub e (Count n) =
       Inr (e\<lparr>nodes_to_show :=
               nodes_to_show (ERD_add (e\<lparr>edges := edges (reverse e)\<rparr>) (Count n))\<rparr>)"
    by (simp add: ERD_sub_def ERD_add_def)
  have bd: "well_formed e \<longrightarrow>
        node_boundary e S = {v. v \<notin> S \<and> (\<exists>u\<in>S. (u, v) \<in> set (edges e))}
        \<and> node_boundary (reverse e) S = {v. v \<notin> S \<and> (\<exists>u\<in>S. (v, u) \<in> set (edges e))}"
    using node_boundary_iff [of e S] node_boundary_reverse [of e S] by blast
  from steps frame zero sub bd show ?thesis by blast
qed

lemma lab_a_plus:
  "nodes_to_show (ERD_add lab_a (Count 0)) = {''`lab`.`a`''}"
  "nodes_to_show (ERD_add lab_a (Count 1)) = {''`lab`.`a`'', ''`lab`.`_b`''}"
  "nodes_to_show (ERD_add lab_a (Count 2)) = {''`lab`.`a`'', ''`lab`.`_b`'', ''`lab`.`__c`''}"
  "nodes_to_show (ERD_add lab_a (Count 5)) = {''`lab`.`a`'', ''`lab`.`_b`'', ''`lab`.`__c`''}"
  "nodes_to_show (ERD_add lab_a (Count (- 3))) = {''`lab`.`a`''}"
  by code_simp+


lemma lab_a_well_formed: "well_formed lab_a"
  by code_simp

lemma lab_a_boundary:
  "node_boundary lab_a {''`lab`.`a`''} = {''`lab`.`_b`''}"
  "node_boundary lab_a ((grow lab_a ^^ 2) (nodes_to_show lab_a)) = {}"
  by code_simp+

lemma lab_c_minus:
  "nodes_to_show (ERD_add (lab_c\<lparr>edges := edges (reverse lab_c)\<rparr>) (Count 1))
     = {''`lab`.`_b`'', ''`lab`.`__c`''}"
  by code_simp

theorem expansion_by_count_witness:
  "(0::int) \<le> 0
   \<and> nodes_to_show (ERD_add lab_a (Count 0)) = nodes_to_show lab_a
   \<and> well_formed lab_a
   \<and> {v. v \<notin> {''`lab`.`a`''} \<and> (\<exists>u\<in>{''`lab`.`a`''}. (u, v) \<in> set (edges lab_a))}
       = {''`lab`.`_b`''}
   \<and> (2::nat) < nat 5
   \<and> node_boundary lab_a ((grow lab_a ^^ 2) (nodes_to_show lab_a)) = {}
   \<and> nodes_to_show (ERD_add lab_a (Count 5))
       = {''`lab`.`a`'', ''`lab`.`_b`'', ''`lab`.`__c`''}
   \<and> ERD_sub lab_c (Count 1)
       = Inr (lab_c\<lparr>nodes_to_show := {''`lab`.`_b`'', ''`lab`.`__c`''}\<rparr>)"
proof -
  note t0 = expansion_by_count [of 0 lab_a "{''`lab`.`a`''}"]
  note t1 = expansion_by_count [of 1 lab_c "{}"]
  from t0 have z: "nodes_to_show (ERD_add lab_a (Count 0)) = nodes_to_show lab_a"
    by simp
  from t0 lab_a_well_formed
  have "node_boundary lab_a {''`lab`.`a`''}
          = {v. v \<notin> {''`lab`.`a`''} \<and> (\<exists>u\<in>{''`lab`.`a`''}. (u, v) \<in> set (edges lab_a))}"
    by blast
  then have b: "{v. v \<notin> {''`lab`.`a`''} \<and> (\<exists>u\<in>{''`lab`.`a`''}. (u, v) \<in> set (edges lab_a))}
       = {''`lab`.`_b`''}"
    by (simp only: lab_a_boundary(1))
  from t1 have s: "ERD_sub lab_c (Count 1)
       = Inr (lab_c\<lparr>nodes_to_show := {''`lab`.`_b`'', ''`lab`.`__c`''}\<rparr>)"
    by (simp only: lab_c_minus)
  from z lab_a_well_formed b lab_a_boundary(2) lab_a_plus(4) s show ?thesis by simp
qed

section \<open>Part tables\<close>

lemma take_append_prefix: "(m @ s = take (length m + length s) p) \<longleftrightarrow> prefix (m @ s) p"
proof
  assume "m @ s = take (length m + length s) p"
  then show "prefix (m @ s) p" by (metis take_is_prefix)
next
  assume "prefix (m @ s) p"
  then obtain z where "p = (m @ s) @ z" by (auto simp: prefix_def)
  then show "m @ s = take (length m + length s) p" by simp
qed

lemma segments_nonempty: "segments n \<noteq> []"
  by (simp add: segments_def split_nonempty)

lemma is_part_qualified:
  assumes "2 \<le> length (segments n)" and "2 \<le> length (segments m)"
  shows "is_part n m =
           Inr (segments m ! 0 = segments n ! 0
                \<and> prefix (segments m ! 1 @ ''__'') (segments n ! 1))"
proof -
  obtain p0 p1 ps where p: "segments n = p0 # p1 # ps"
    using assms(1) by (cases "segments n"; cases "tl (segments n)") auto
  obtain m0 m1 ms where m: "segments m = m0 # m1 # ms"
    using assms(2) by (cases "segments m"; cases "tl (segments m)") auto
  have "(m1 @ ''__'' = take (length m1 + 2) p1) \<longleftrightarrow> prefix (m1 @ ''__'') p1"
    using take_append_prefix [of m1 "''__''" p1] by simp
  then show ?thesis by (simp add: is_part_def p m)
qed

lemma part_of_segments:
  "part_of_spec n m \<longleftrightarrow>
     (segments m ! 0 = segments n ! 0 \<and> prefix (segments m ! 1 @ ''__'') (segments n ! 1))"
  by (auto simp: part_of_spec_def database_segment_def table_segment_def)

lemma part_of_spec_trans:
  assumes "part_of_spec n m" and "part_of_spec m k"
  shows "part_of_spec n k"
proof -
  have "prefix (segments k ! 1 @ ''__'') (segments m ! 1)" using assms(2) by (simp add: part_of_segments)
  moreover have "prefix (segments m ! 1) (segments m ! 1 @ ''__'')" by simp
  moreover have "prefix (segments m ! 1 @ ''__'') (segments n ! 1)" using assms(1) by (simp add: part_of_segments)
  ultimately have "prefix (segments k ! 1 @ ''__'') (segments n ! 1)"
    by (meson prefix_order.trans)
  then show ?thesis using assms by (simp add: part_of_segments)
qed

lemma any_is_part_qualified:
  assumes "2 \<le> length (segments n)" and "\<forall>m\<in>S. 2 \<le> length (segments m)"
  shows "any_is_part n S = Inr (\<exists>m\<in>S. part_of_spec n m)"
proof -
  have "\<forall>m\<in>S. is_part n m = Inr (part_of_spec n m)"
    using assms is_part_qualified [of n] by (simp add: part_of_segments)
  then show ?thesis by (auto simp: any_is_part_def)
qed

lemma add_parts_loop_result:
  assumes "\<forall>n\<in>set ns. 2 \<le> length (segments n)"
    and "\<forall>m\<in>S. 2 \<le> length (segments m)"
    and "S0 \<subseteq> S" and "\<forall>m\<in>S. m \<in> S0 \<or> (\<exists>k\<in>S0. part_of_spec m k)"
  shows "add_parts_loop ns S = Inr (S \<union> {n \<in> set ns. \<exists>m\<in>S0. part_of_spec n m})"
  using assms
proof (induction ns arbitrary: S)
  case Nil
  show ?case by simp
next
  case (Cons n ns)
  have q: "2 \<le> length (segments n)" using Cons.prems(1) by simp
  have any: "any_is_part n S = Inr (\<exists>m\<in>S. part_of_spec n m)"
    using any_is_part_qualified [OF q Cons.prems(2)] .
  have same: "(\<exists>m\<in>S. part_of_spec n m) \<longleftrightarrow> (\<exists>m\<in>S0. part_of_spec n m)"
  proof
    assume "\<exists>m\<in>S. part_of_spec n m"
    then obtain m where m: "m \<in> S" "part_of_spec n m" by blast
    from Cons.prems(4) m(1) consider "m \<in> S0" | k where "k \<in> S0" "part_of_spec m k" by blast
    then show "\<exists>m\<in>S0. part_of_spec n m"
    proof cases
      case 1
      with m(2) show ?thesis by blast
    next
      case 2
      with m(2) show ?thesis using part_of_spec_trans by blast
    qed
  next
    assume "\<exists>m\<in>S0. part_of_spec n m"
    with Cons.prems(3) show "\<exists>m\<in>S. part_of_spec n m" by blast
  qed
  show ?case
  proof (cases "\<exists>m\<in>S0. part_of_spec n m")
    case True
    have "add_parts_loop ns (insert n S)
            = Inr (insert n S \<union> {n \<in> set ns. \<exists>m\<in>S0. part_of_spec n m})"
      using Cons.prems True q by (intro Cons.IH) auto
    then show ?thesis using any same True by auto
  next
    case False
    have "add_parts_loop ns S = Inr (S \<union> {n \<in> set ns. \<exists>m\<in>S0. part_of_spec n m})"
      using Cons.prems by (intro Cons.IH) auto
    then show ?thesis using any same False by auto
  qed
qed

lemma add_parts_shown:
  assumes "\<forall>n \<in> set (nodes e) \<union> nodes_to_show e. 2 \<le> length (segments n)"
  shows "add_parts e =
           Inr (e\<lparr>nodes_to_show :=
                  nodes_to_show e \<union> {n \<in> set (nodes e). \<exists>m\<in>nodes_to_show e. part_of_spec n m}\<rparr>)"
proof -
  have "add_parts_loop (nodes e) (nodes_to_show e)
          = Inr (nodes_to_show e \<union> {n \<in> set (nodes e). \<exists>m\<in>nodes_to_show e. part_of_spec n m})"
    using assms by (intro add_parts_loop_result) auto
  then show ?thesis by (simp add: add_parts_def)
qed

lemma add_parts_twice:
  assumes "\<forall>n \<in> set (nodes e) \<union> nodes_to_show e. 2 \<le> length (segments n)"
    and "add_parts e = Inr r"
  shows "add_parts r = Inr r"
proof -
  let ?P = "{n \<in> set (nodes e). \<exists>m\<in>nodes_to_show e. part_of_spec n m}"
  have r: "r = e\<lparr>nodes_to_show := nodes_to_show e \<union> ?P\<rparr>"
    using add_parts_shown [OF assms(1)] assms(2) by simp
  have wf: "\<forall>n \<in> set (nodes r) \<union> nodes_to_show r. 2 \<le> length (segments n)"
    using assms(1) by (auto simp: r)
  have "{n \<in> set (nodes r). \<exists>m\<in>nodes_to_show r. part_of_spec n m} \<subseteq> nodes_to_show r"
  proof
    fix n assume "n \<in> {n \<in> set (nodes r). \<exists>m\<in>nodes_to_show r. part_of_spec n m}"
    then obtain m where n: "n \<in> set (nodes e)" and m: "m \<in> nodes_to_show e \<union> ?P" "part_of_spec n m"
      by (auto simp: r)
    from m(1) have "\<exists>k\<in>nodes_to_show e. part_of_spec n k"
    proof
      assume "m \<in> nodes_to_show e"
      with m(2) show ?thesis by blast
    next
      assume "m \<in> ?P"
      then obtain k where "k \<in> nodes_to_show e" "part_of_spec m k" by blast
      with m(2) show ?thesis using part_of_spec_trans by blast
    qed
    with n show "n \<in> nodes_to_show r" by (simp add: r)
  qed
  then have "nodes_to_show r \<union> {n \<in> set (nodes r). \<exists>m\<in>nodes_to_show r. part_of_spec n m}
               = nodes_to_show r" by blast
  then show ?thesis using add_parts_shown [OF wf] by simp
qed

lemma dropWhile_absent: "c \<notin> set t \<Longrightarrow> dropWhile (\<lambda>y. y = c) t = t"
  by (cases t) auto

lemma strip_quoted:
  assumes "c \<notin> set s"
  shows "strip c (c # s @ [c]) = s"
proof (cases s)
  case Nil
  then show ?thesis by (simp add: strip_def)
next
  case (Cons x xs)
  then have "dropWhile (\<lambda>y. y = c) (c # s @ [c]) = s @ [c]"
    using assms by auto
  moreover have "dropWhile (\<lambda>y. y = c) (rev (s @ [c])) = rev s"
    using dropWhile_absent [of c "rev s"] assms by simp
  ultimately show ?thesis by (simp add: strip_def)
qed

lemma segments_backquoted:
  assumes "CHR ''.'' \<notin> set db" "CHR ''.'' \<notin> set tn" "CHR 0x60 \<notin> set db" "CHR 0x60 \<notin> set tn"
  shows "segments (backquoted db tn) = [db, tn]"
proof -
  have "backquoted db tn = (CHR 0x60 # db @ [CHR 0x60]) @ CHR ''.'' # (CHR 0x60 # tn @ [CHR 0x60])"
    by (simp add: backquoted_def)
  then have "split (CHR ''.'') (backquoted db tn)
          = split (CHR ''.'') (CHR 0x60 # db @ [CHR 0x60]) @ split (CHR ''.'') (CHR 0x60 # tn @ [CHR 0x60])"
    by (simp only: split_append)
  also have "\<dots> = [CHR 0x60 # db @ [CHR 0x60], CHR 0x60 # tn @ [CHR 0x60]]"
    using assms(1,2) by (simp add: split_free)
  finally show ?thesis using assms(3,4) by (simp add: segments_def strip_quoted)
qed


text \<open>
  Claim C5. In a diagram whose nodes and shown nodes all have a database segment
  and a table-name segment, \<open>add_parts\<close> returns the diagram with the same graph whose
  shown set is the shown set together with every node of the graph that is part of
  a shown node, and \<open>add_parts\<close> applied to the result returns the result. The
  segments of an identifier made of a database and a table name in backticks, both
  free of dots and backticks, are this database and this table name.
\<close>

theorem add_parts_closure:
  "((\<forall>n \<in> set (nodes e) \<union> nodes_to_show e. 2 \<le> length (segments n)) \<longrightarrow>
      (\<exists>r. add_parts e = Inr r \<and> nodes r = nodes e \<and> edges r = edges e
           \<and> nodes_to_show r =
               nodes_to_show e
               \<union> {n \<in> set (nodes e). \<exists>m\<in>nodes_to_show e. part_of_spec n m}
           \<and> add_parts r = Inr r))
   \<and> (CHR ''.'' \<notin> set db \<union> set tn \<and> CHR 0x60 \<notin> set db \<union> set tn \<longrightarrow>
        database_segment (backquoted db tn) = db \<and> table_segment (backquoted db tn) = tn)"
proof (intro conjI impI)
  assume wf: "\<forall>n \<in> set (nodes e) \<union> nodes_to_show e. 2 \<le> length (segments n)"
  let ?r = "e\<lparr>nodes_to_show :=
               nodes_to_show e
               \<union> {n \<in> set (nodes e). \<exists>m\<in>nodes_to_show e. part_of_spec n m}\<rparr>"
  have r: "add_parts e = Inr ?r" by (rule add_parts_shown [OF wf])
  have "add_parts ?r = Inr ?r" by (rule add_parts_twice [OF wf r])
  with r show "\<exists>r. add_parts e = Inr r \<and> nodes r = nodes e \<and> edges r = edges e
           \<and> nodes_to_show r =
               nodes_to_show e
               \<union> {n \<in> set (nodes e). \<exists>m\<in>nodes_to_show e. part_of_spec n m}
           \<and> add_parts r = Inr r"
    by (intro exI [of _ ?r]) simp
next
  assume "CHR ''.'' \<notin> set db \<union> set tn \<and> CHR 0x60 \<notin> set db \<union> set tn"
  then have "segments (backquoted db tn) = [db, tn]"
    by (intro segments_backquoted) auto
  then show "database_segment (backquoted db tn) = db"
    and "table_segment (backquoted db tn) = tn"
    by (simp_all add: database_segment_def table_segment_def)
qed

lemma master_shown_qualified:
  "2 \<le> length (segments ''`lab`.`my_experiment`'')"
  "2 \<le> length (segments ''`lab`.`my_experiment__trial_info`'')"
  "2 \<le> length (segments ''`lab`.`other`'')"
  by code_simp+

lemma master_shown_parts:
  "add_parts master_shown =
     Inr (master_shown\<lparr>nodes_to_show :=
            {''`lab`.`my_experiment`'', ''`lab`.`my_experiment__trial_info`''}\<rparr>)"
  by code_simp

theorem add_parts_closure_witness:
  "2 \<le> length (segments ''`lab`.`my_experiment`'')
   \<and> 2 \<le> length (segments ''`lab`.`my_experiment__trial_info`'')
   \<and> 2 \<le> length (segments ''`lab`.`other`'')
   \<and> CHR ''.'' \<notin> set ''lab'' \<union> set ''my_experiment''
   \<and> CHR 0x60 \<notin> set ''lab'' \<union> set ''my_experiment''
   \<and> table_segment (backquoted ''lab'' ''my_experiment'') = ''my_experiment''
   \<and> add_parts master_shown =
       Inr (master_shown\<lparr>nodes_to_show :=
              {''`lab`.`my_experiment`'', ''`lab`.`my_experiment__trial_info`''}\<rparr>)
   \<and> add_parts (master_shown\<lparr>nodes_to_show :=
              {''`lab`.`my_experiment`'', ''`lab`.`my_experiment__trial_info`''}\<rparr>) =
       Inr (master_shown\<lparr>nodes_to_show :=
              {''`lab`.`my_experiment`'', ''`lab`.`my_experiment__trial_info`''}\<rparr>)"
proof -
  note t = add_parts_closure [of master_shown "''lab''" "''my_experiment''"]
  have wf: "\<forall>n \<in> set (nodes master_shown) \<union> nodes_to_show master_shown.
              2 \<le> length (segments n)"
    using master_shown_qualified by (simp add: master_shown_def)
  from t wf obtain r where r: "add_parts master_shown = Inr r" "add_parts r = Inr r"
    by blast
  from r(1) have "r = master_shown\<lparr>nodes_to_show :=
              {''`lab`.`my_experiment`'', ''`lab`.`my_experiment__trial_info`''}\<rparr>"
    by (simp add: master_shown_parts)
  with r(2) have twice: "add_parts (master_shown\<lparr>nodes_to_show :=
              {''`lab`.`my_experiment`'', ''`lab`.`my_experiment__trial_info`''}\<rparr>) =
       Inr (master_shown\<lparr>nodes_to_show :=
              {''`lab`.`my_experiment`'', ''`lab`.`my_experiment__trial_info`''}\<rparr>)"
    by simp
  have clean: "CHR ''.'' \<notin> set ''lab'' \<union> set ''my_experiment''
       \<and> CHR 0x60 \<notin> set ''lab'' \<union> set ''my_experiment''" by simp
  with t have seg: "table_segment (backquoted ''lab'' ''my_experiment'') = ''my_experiment''"
    by blast
  from master_shown_qualified clean seg master_shown_parts twice show ?thesis by blast
qed

end
